theory Spec2Isabelle
  imports Main "HOL-Library.Sublist"
begin

section \<open>CrateCheck: a shallow embedding of \<open>cratecheck.py\<close>\<close>

text \<open>
  The script runs a fixed list of external commands and file-existence tests, counts the
  outcomes on a \<open>CrateChecker\<close> object and prints a verdict. The embedding keeps the
  object as a record, the terminal and the operating system as an explicit world that
  every function threads through, and the answers of the operating system (how a child
  process ended, whether a path exists) as an environment the program cannot influence.

  Text is \<open>string\<close>. The characters beyond ASCII that the script prints (emoji, the
  bullet) are written as the UTF-8 bytes that reach the terminal.
\<close>

subsection \<open>Text helpers of the Python runtime\<close>

text \<open>\<open>sep.join(xs)\<close>\<close>

fun str_join :: "string \<Rightarrow> string list \<Rightarrow> string" where
  "str_join sep [] = []"
| "str_join sep [x] = x"
| "str_join sep (x # y # ys) = x @ sep @ str_join sep (y # ys)"

text \<open>
  \<open>s.strip()\<close>: whitespace is removed at both ends. Python's whitespace characters are
  U+0009 to U+000D, U+001C to U+0020, U+0085, U+00A0, U+1680, U+2000 to U+200A, U+2028,
  U+2029, U+202F, U+205F and U+3000; each is listed by its UTF-8 bytes.
\<close>

definition whitespace :: "string list" where
  "whitespace =
     [[CHR 0x09], [CHR 0x0A], [CHR 0x0B], [CHR 0x0C], [CHR 0x0D],
      [CHR 0x1C], [CHR 0x1D], [CHR 0x1E], [CHR 0x1F], [CHR 0x20],
      [CHR 0xC2, CHR 0x85],
      [CHR 0xC2, CHR 0xA0],
      [CHR 0xE1, CHR 0x9A, CHR 0x80],
      [CHR 0xE2, CHR 0x80, CHR 0x80],
      [CHR 0xE2, CHR 0x80, CHR 0x81],
      [CHR 0xE2, CHR 0x80, CHR 0x82],
      [CHR 0xE2, CHR 0x80, CHR 0x83],
      [CHR 0xE2, CHR 0x80, CHR 0x84],
      [CHR 0xE2, CHR 0x80, CHR 0x85],
      [CHR 0xE2, CHR 0x80, CHR 0x86],
      [CHR 0xE2, CHR 0x80, CHR 0x87],
      [CHR 0xE2, CHR 0x80, CHR 0x88],
      [CHR 0xE2, CHR 0x80, CHR 0x89],
      [CHR 0xE2, CHR 0x80, CHR 0x8A],
      [CHR 0xE2, CHR 0x80, CHR 0xA8],
      [CHR 0xE2, CHR 0x80, CHR 0xA9],
      [CHR 0xE2, CHR 0x80, CHR 0xAF],
      [CHR 0xE2, CHR 0x81, CHR 0x9F],
      [CHR 0xE3, CHR 0x80, CHR 0x80]]"

text \<open>Drop, from the front, every leading occurrence of one of the given sequences.\<close>

fun strip_front :: "string list \<Rightarrow> string \<Rightarrow> string" where
  "strip_front ws [] = []"
| "strip_front ws (c # cs) =
     (case find (\<lambda>w. w \<noteq> [] \<and> prefix w (c # cs)) ws of
        None \<Rightarrow> c # cs
      | Some w \<Rightarrow> strip_front ws (drop (length w - 1) cs))"

definition lstrip :: "string \<Rightarrow> string" where
  "lstrip s = strip_front whitespace s"

definition rstrip :: "string \<Rightarrow> string" where
  "rstrip s = rev (strip_front (map rev whitespace) (rev s))"

definition strip :: "string \<Rightarrow> string" where
  "strip s = rstrip (lstrip s)"

text \<open>
  \<open>s.center(width)\<close> pads with spaces; CPython puts \<open>marg div 2\<close> of them on the left,
  one more when both the margin and the width are odd. The script centres its six
  section titles only, all of them ASCII, so bytes and characters count the same.
\<close>

definition center :: "nat \<Rightarrow> string \<Rightarrow> string" where
  "center width s =
     (if width \<le> length s then s
      else (let marg = width - length s;
                left = marg div 2 + (if odd marg \<and> odd width then 1 else 0)
            in replicate left CHR '' '' @ s @ replicate (marg - left) CHR '' ''))"

text \<open>The decimal rendering of an integer, as an f-string field prints it.\<close>

fun str_nat :: "nat \<Rightarrow> string" where
  "str_nat n =
     (if n < 10 then [char_of (48 + n)]
      else str_nat (n div 10) @ [char_of (48 + n mod 10)])"

definition str_int :: "int \<Rightarrow> string" where
  "str_int i = (if i < 0 then CHR ''-'' # str_nat (nat (- i)) else str_nat (nat i))"

subsection \<open>Class \<open>Colors\<close> and the symbols of the report\<close>

definition ESC :: char where "ESC = CHR 0x1B"
definition NL :: char where "NL = CHR 0x0A"

definition Colors_RED :: string where "Colors_RED = ESC # ''[91m''"
definition Colors_GREEN :: string where "Colors_GREEN = ESC # ''[92m''"
definition Colors_YELLOW :: string where "Colors_YELLOW = ESC # ''[93m''"
definition Colors_BLUE :: string where "Colors_BLUE = ESC # ''[94m''"
definition Colors_MAGENTA :: string where "Colors_MAGENTA = ESC # ''[95m''"
definition Colors_CYAN :: string where "Colors_CYAN = ESC # ''[96m''"
definition Colors_WHITE :: string where "Colors_WHITE = ESC # ''[97m''"
definition Colors_BOLD :: string where "Colors_BOLD = ESC # ''[1m''"
definition Colors_UNDERLINE :: string where "Colors_UNDERLINE = ESC # ''[4m''"
definition Colors_END :: string where "Colors_END = ESC # ''[0m''"

definition sym_magnifier :: string where
  "sym_magnifier = [CHR 0xF0, CHR 0x9F, CHR 0x94, CHR 0x8D]"
definition sym_check :: string where
  "sym_check = [CHR 0xE2, CHR 0x9C, CHR 0x85]"
definition sym_cross :: string where
  "sym_cross = [CHR 0xE2, CHR 0x9D, CHR 0x8C]"
definition sym_alarm :: string where
  "sym_alarm = [CHR 0xE2, CHR 0x8F, CHR 0xB0]"
definition sym_collision :: string where
  "sym_collision = [CHR 0xF0, CHR 0x9F, CHR 0x92, CHR 0xA5]"
definition sym_warning :: string where
  "sym_warning = [CHR 0xE2, CHR 0x9A, CHR 0xA0, CHR 0xEF, CHR 0xB8, CHR 0x8F]"
definition sym_chart :: string where
  "sym_chart = [CHR 0xF0, CHR 0x9F, CHR 0x93, CHR 0x8A]"
definition sym_bullet :: string where
  "sym_bullet = [CHR 0xE2, CHR 0x80, CHR 0xA2]"
definition sym_party :: string where
  "sym_party = [CHR 0xF0, CHR 0x9F, CHR 0x8E, CHR 0x89]"
definition sym_prohibited :: string where
  "sym_prohibited = [CHR 0xF0, CHR 0x9F, CHR 0x9A, CHR 0xAB]"
definition sym_crab :: string where
  "sym_crab = [CHR 0xF0, CHR 0x9F, CHR 0xA6, CHR 0x80]"
definition sym_stopwatch :: string where
  "sym_stopwatch = [CHR 0xE2, CHR 0x8F, CHR 0xB1, CHR 0xEF, CHR 0xB8, CHR 0x8F]"

subsection \<open>The world outside the script\<close>

text \<open>
  What \<open>subprocess.run(cmd, capture_output=True, text=True, timeout=300)\<close> can do: return
  a completed process (exit status, captured standard output, captured standard error),
  raise \<open>TimeoutExpired\<close>, or raise another exception \<open>e\<close>, kept as \<open>str(e)\<close>.
\<close>

datatype outcome =
    Completed int string string
  | TimeoutExpired
  | Raised string

text \<open>
  The requests the script makes of the operating system, in the order it makes them: a
  command run with its timeout in seconds, or an existence test of a path.
\<close>

datatype syscall =
    Run "string list" nat
  | Exists string

text \<open>
  The environment answers the \<open>n\<close>-th request (counted from the requests already made):
  the outcome of a command, whether a path exists. \<open>elapsed_text\<close> is the rendering of the
  measured wall-clock time by \<open>{elapsed:.2f}\<close>; clocks and floating point stay outside.
\<close>

record env =
  subprocess_run :: "nat \<Rightarrow> string list \<Rightarrow> outcome"
  path_exists :: "nat \<Rightarrow> string \<Rightarrow> bool"
  elapsed_text :: string

text \<open>The lines printed so far (one entry per \<open>print\<close> call) and the requests made so far.\<close>

record world =
  stdout :: "string list"
  calls :: "syscall list"

definition print :: "string \<Rightarrow> world \<Rightarrow> world" where
  "print line w = w\<lparr>stdout := stdout w @ [line]\<rparr>"

subsection \<open>Class \<open>CrateChecker\<close>\<close>

record checker =
  passed_checks :: int
  total_checks :: int
  failed_checks :: "string list"
  warnings :: "string list"

type_synonym state = "checker \<times> world"

definition CrateChecker_init :: checker where
  "CrateChecker_init =
     \<lparr>passed_checks = 0, total_checks = 0, failed_checks = [], warnings = []\<rparr>"

definition print_header :: "string \<Rightarrow> world \<Rightarrow> world" where
  "print_header title w =
     (let w1 = print (NL # Colors_CYAN @ Colors_BOLD @ replicate 60 CHR ''='' @ Colors_END) w;
          w2 = print (Colors_CYAN @ Colors_BOLD @ center 60 title @ Colors_END) w1
      in print (Colors_CYAN @ Colors_BOLD @ replicate 60 CHR ''='' @ Colors_END) w2)"

definition print_step :: "string \<Rightarrow> world \<Rightarrow> world" where
  "print_step step w =
     print (NL # Colors_BLUE @ sym_magnifier @ '' '' @ step @ Colors_END) w"

text \<open>
  \<open>run_command\<close>: the counter of checks goes up first; then the command runs, and each of
  the three ways it can end is one branch. The result is the pair the method returns and
  the updated object and world.
\<close>

fun run_command ::
  "env \<Rightarrow> string list \<Rightarrow> string \<Rightarrow> bool \<Rightarrow> state \<Rightarrow> (bool \<times> string) \<times> state" where
  "run_command env cmd description critical (c, w) =
     (let c1 = c\<lparr>total_checks := total_checks c + 1\<rparr>;
          w1 = print (''   Running: '' @ str_join '' '' cmd) w;
          result = subprocess_run env (length (calls w1)) cmd;
          w2 = w1\<lparr>calls := calls w1 @ [Run cmd 300]\<rparr>
      in case result of
           Completed returncode out err \<Rightarrow>
             if returncode = 0 then
               (let w3 = print (''   '' @ Colors_GREEN @ sym_check @ '' '' @ description
                                 @ '' - PASSED'' @ Colors_END) w2;
                    c2 = c1\<lparr>passed_checks := passed_checks c1 + 1\<rparr>
                in ((True, out), c2, w3))
             else
               (let error_msg = description @ '' - FAILED'';
                    w3 = print (''   '' @ Colors_RED @ sym_cross @ '' '' @ error_msg
                                 @ Colors_END) w2;
                    w4 = (if err \<noteq> [] then
                            print (''   '' @ Colors_RED @ ''Error: '' @ strip err
                                    @ Colors_END) w3
                          else w3);
                    c2 = (if critical then c1\<lparr>failed_checks := failed_checks c1 @ [error_msg]\<rparr>
                          else c1\<lparr>warnings := warnings c1 @ [error_msg]\<rparr>)
                in ((False, err), c2, w4))
         | TimeoutExpired \<Rightarrow>
             (let error_msg = description @ '' - TIMEOUT'';
                  w3 = print (''   '' @ Colors_RED @ sym_alarm @ '' '' @ error_msg
                               @ Colors_END) w2;
                  c2 = (if critical then c1\<lparr>failed_checks := failed_checks c1 @ [error_msg]\<rparr>
                        else c1\<lparr>warnings := warnings c1 @ [error_msg]\<rparr>)
              in ((False, ''Command timed out''), c2, w3))
         | Raised e \<Rightarrow>
             (let error_msg = description @ '' - ERROR: '' @ e;
                  w3 = print (''   '' @ Colors_RED @ sym_collision @ '' '' @ error_msg
                               @ Colors_END) w2;
                  c2 = (if critical then c1\<lparr>failed_checks := failed_checks c1 @ [error_msg]\<rparr>
                        else c1\<lparr>warnings := warnings c1 @ [error_msg]\<rparr>)
              in ((False, e), c2, w3)))"


subsection \<open>The phases\<close>

text \<open>
  Each phase prints its header and walks its list. The loops of \<open>check_prerequisites\<close>
  and of the four command phases differ in one line (\<open>print_step\<close>) and in the
  \<open>critical\<close> flag; the flag \<open>all_good\<close> / \<open>all_passed\<close> is the loop's accumulator.
\<close>

definition prerequisite_tools :: "(string list \<times> string) list" where
  "prerequisite_tools =
     [([''cargo'', ''--version''], ''Cargo availability''),
      ([''rustc'', ''--version''], ''Rust compiler availability''),
      ([''git'', ''--version''], ''Git availability'')]"

fun prerequisites_loop ::
  "env \<Rightarrow> (string list \<times> string) list \<Rightarrow> bool \<Rightarrow> state \<Rightarrow> bool \<times> state" where
  "prerequisites_loop env [] all_good st = (all_good, st)"
| "prerequisites_loop env ((cmd, desc) # tools) all_good st =
     (case run_command env cmd desc True st of
        ((success, _), st1) \<Rightarrow>
          prerequisites_loop env tools (if \<not> success then False else all_good) st1)"

definition check_prerequisites :: "env \<Rightarrow> state \<Rightarrow> bool \<times> state" where
  "check_prerequisites env st =
     (case st of (c, w) \<Rightarrow>
        prerequisites_loop env prerequisite_tools True (c, print_header ''PREREQUISITE CHECKS'' w))"

fun checks_loop ::
  "env \<Rightarrow> bool \<Rightarrow> (string list \<times> string) list \<Rightarrow> bool \<Rightarrow> state \<Rightarrow> bool \<times> state" where
  "checks_loop env critical [] all_passed st = (all_passed, st)"
| "checks_loop env critical ((cmd, desc) # checks) all_passed (c, w) =
     (case run_command env cmd desc critical (c, print_step desc w) of
        ((success, _), st1) \<Rightarrow>
          checks_loop env critical checks (if \<not> success then False else all_passed) st1)"

definition core_checks :: "(string list \<times> string) list" where
  "core_checks =
     [([''cargo'', ''check''], ''Basic compilation check''),
      ([''cargo'', ''build''], ''Full build''),
      ([''cargo'', ''build'', ''--release''], ''Release build''),
      ([''cargo'', ''test''], ''All tests''),
      ([''cargo'', ''test'', ''--all-targets''], ''All targets tests'')]"

definition core_compilation_tests :: "env \<Rightarrow> state \<Rightarrow> bool \<times> state" where
  "core_compilation_tests env st =
     (case st of (c, w) \<Rightarrow>
        checks_loop env True core_checks True (c, print_header ''CORE COMPILATION & TESTING'' w))"

definition quality_checks :: "(string list \<times> string) list" where
  "quality_checks =
     [([''cargo'', ''fmt'', ''--all'', ''--check''], ''Code formatting''),
      ([''cargo'', ''clippy'', ''--all-targets'', ''--all-features'', ''--'', ''-D'', ''warnings''],
       ''Clippy linting''),
      ([''cargo'', ''check'', ''--all-targets'', ''--all-features''], ''All features check'')]"

definition code_quality_checks :: "env \<Rightarrow> state \<Rightarrow> bool \<times> state" where
  "code_quality_checks env st =
     (case st of (c, w) \<Rightarrow>
        checks_loop env True quality_checks True (c, print_header ''CODE QUALITY CHECKS'' w))"

definition doc_checks :: "(string list \<times> string) list" where
  "doc_checks =
     [([''cargo'', ''doc'', ''--no-deps''], ''Basic documentation''),
      ([''cargo'', ''doc'', ''--all-features'', ''--no-deps''],
       ''Documentation with all features'')]"

definition documentation_checks :: "env \<Rightarrow> state \<Rightarrow> bool \<times> state" where
  "documentation_checks env st =
     (case st of (c, w) \<Rightarrow>
        checks_loop env False doc_checks True (c, print_header ''DOCUMENTATION CHECKS'' w))"

definition package_checks :: "(string list \<times> string) list" where
  "package_checks =
     [([''cargo'', ''package'', ''--list''], ''Package file list''),
      ([''cargo'', ''package'', ''--allow-dirty''], ''Package creation'')]"

definition package_validation :: "env \<Rightarrow> state \<Rightarrow> bool \<times> state" where
  "package_validation env st =
     (case st of (c, w) \<Rightarrow>
        checks_loop env False package_checks True (c, print_header ''PACKAGE VALIDATION'' w))"

text \<open>
  \<open>metadata_checks\<close> tests three paths. A path that exists counts as passed; a missing one
  is appended to \<open>warnings\<close>, whatever the file, and only the returned flag tells the
  manifest apart. The counter of checks goes up at the end of each round.
\<close>

definition required_files :: "(string \<times> string) list" where
  "required_files =
     [(''Cargo.toml'', ''Cargo manifest''),
      (''README.md'', ''README file''),
      (''LICENSE'', ''License file'')]"

fun metadata_loop ::
  "env \<Rightarrow> (string \<times> string) list \<Rightarrow> bool \<Rightarrow> state \<Rightarrow> bool \<times> state" where
  "metadata_loop env [] all_passed st = (all_passed, st)"
| "metadata_loop env ((filename, desc) # files) all_passed (c, w) =
     (let w1 = print_step (''Checking '' @ desc) w;
          found = path_exists env (length (calls w1)) filename;
          w2 = w1\<lparr>calls := calls w1 @ [Exists filename]\<rparr>
      in if found then
           (let w3 = print (''   '' @ Colors_GREEN @ sym_check @ '' '' @ desc @ '' - EXISTS''
                             @ Colors_END) w2;
                c1 = c\<lparr>passed_checks := passed_checks c + 1\<rparr>;
                c2 = c1\<lparr>total_checks := total_checks c1 + 1\<rparr>
            in metadata_loop env files all_passed (c2, w3))
         else
           (let w3 = print (''   '' @ Colors_YELLOW @ sym_warning @ ''  '' @ desc @ '' - MISSING''
                             @ Colors_END) w2;
                c1 = c\<lparr>warnings := warnings c @ [desc @ '' missing'']\<rparr>;
                all_passed1 = (if filename \<in> set [''Cargo.toml''] then False else all_passed);
                c2 = c1\<lparr>total_checks := total_checks c1 + 1\<rparr>
            in metadata_loop env files all_passed1 (c2, w3)))"

definition metadata_checks :: "env \<Rightarrow> state \<Rightarrow> bool \<times> state" where
  "metadata_checks env st =
     (case st of (c, w) \<Rightarrow>
        metadata_loop env required_files True (c, print_header ''METADATA & FILES CHECK'' w))"

subsection \<open>Summary and verdict\<close>

definition print_lines :: "string list \<Rightarrow> world \<Rightarrow> world" where
  "print_lines ls w = foldl (\<lambda>w l. print l w) w ls"

text \<open>The lines of the three verdicts, as \<open>print_summary\<close> prints them.\<close>

definition verdict_ready :: "string list" where
  "verdict_ready =
     [NL # Colors_GREEN @ Colors_BOLD @ sym_party @ '' CRATE IS READY FOR CRATES.IO RELEASE! ''
        @ sym_party @ Colors_END,
      Colors_GREEN
        @ ''All checks passed with no failures or warnings. You can proceed with publishing.''
        @ Colors_END]"

definition verdict_warnings :: "string list" where
  "verdict_warnings =
     [NL # Colors_YELLOW @ Colors_BOLD @ sym_warning @ ''  CRATE NOT READY - WARNINGS MUST BE FIXED''
        @ Colors_END,
      Colors_YELLOW
        @ ''All critical checks passed, but warnings must be addressed before release.''
        @ Colors_END,
      Colors_YELLOW @ ''Please fix the warnings above to proceed with publishing.''
        @ Colors_END]"

definition verdict_not_ready :: "string list" where
  "verdict_not_ready =
     [NL # Colors_RED @ Colors_BOLD @ sym_prohibited @ '' CRATE NOT READY FOR RELEASE''
        @ Colors_END,
      Colors_RED @ ''Please fix the critical failures and warnings before publishing.''
        @ Colors_END]"

definition print_summary :: "state \<Rightarrow> bool \<times> state" where
  "print_summary st =
     (case st of (c, w) \<Rightarrow>
       (let w1 = print_header ''FINAL SUMMARY'' w;
            w2 = print (NL # Colors_BOLD @ sym_chart @ '' RESULTS SUMMARY:'' @ Colors_END) w1;
            w3 = print (''   Total Checks: '' @ str_int (total_checks c)) w2;
            w4 = print (''   '' @ Colors_GREEN @ ''Passed: '' @ str_int (passed_checks c)
                         @ Colors_END) w3;
            w5 = print (''   '' @ Colors_RED @ ''Failed: ''
                         @ str_int (int (length (failed_checks c))) @ Colors_END) w4;
            w6 = print (''   '' @ Colors_YELLOW @ ''Warnings: ''
                         @ str_int (int (length (warnings c))) @ Colors_END) w5;
            w7 = (if failed_checks c \<noteq> [] then
                    print_lines
                      (map (\<lambda>failure. ''   '' @ Colors_RED @ sym_bullet @ '' '' @ failure
                                        @ Colors_END) (failed_checks c))
                      (print (NL # Colors_RED @ Colors_BOLD @ sym_cross
                               @ '' CRITICAL FAILURES:'' @ Colors_END) w6)
                  else w6);
            w8 = (if warnings c \<noteq> [] then
                    print_lines
                      (map (\<lambda>warning. ''   '' @ Colors_YELLOW @ sym_bullet @ '' '' @ warning
                                        @ Colors_END) (warnings c))
                      (print (NL # Colors_YELLOW @ Colors_BOLD @ sym_warning
                               @ ''  WARNINGS:'' @ Colors_END) w7)
                  else w7)
        in if \<not> (failed_checks c \<noteq> []) \<and> \<not> (warnings c \<noteq> []) then
             (True, c, print_lines verdict_ready w8)
           else if \<not> (failed_checks c \<noteq> []) \<and> warnings c \<noteq> [] then
             (False, c, print_lines verdict_warnings w8)
           else
             (False, c, print_lines verdict_not_ready w8)))"

subsection \<open>The whole run\<close>

definition print_banner :: "world \<Rightarrow> world" where
  "print_banner w =
     print (replicate 50 CHR ''='' @ Colors_END)
       (print ''Comprehensive validation for crates.io release''
         (print (sym_crab @ '' RUST CRATE QUALITY CHECKER '' @ sym_crab)
           (print (Colors_MAGENTA @ Colors_BOLD) w)))"

text \<open>
  \<open>run_all_checks\<close>: the banner, the prerequisites with the one early return, the five
  phases whose results are and-ed into \<open>checks_passed\<close>, the timing line, and the summary,
  whose result is the method's result. \<open>checks_passed\<close> is computed and never read.
\<close>

definition run_all_checks :: "env \<Rightarrow> state \<Rightarrow> bool \<times> state" where
  "run_all_checks env st =
     (case st of (c, w) \<Rightarrow>
       (let checks_passed = True in
        case check_prerequisites env (c, print_banner w) of
          (ok, c0, w0) \<Rightarrow>
            if \<not> ok then
              (False, c0,
               print (NL # Colors_RED @ sym_cross @ '' Prerequisites failed. Cannot continue.''
                       @ Colors_END) w0)
            else
              (case core_compilation_tests env (c0, w0) of (r1, st1) \<Rightarrow>
               let checks_passed = (checks_passed \<and> r1) in
               case code_quality_checks env st1 of (r2, st2) \<Rightarrow>
               let checks_passed = (checks_passed \<and> r2) in
               case documentation_checks env st2 of (r3, st3) \<Rightarrow>
               let checks_passed = (checks_passed \<and> r3) in
               case package_validation env st3 of (r4, st4) \<Rightarrow>
               let checks_passed = (checks_passed \<and> r4) in
               case metadata_checks env st4 of (r5, c5, w5) \<Rightarrow>
               let checks_passed = (checks_passed \<and> r5) in
               print_summary
                 (c5, print (NL # Colors_CYAN @ sym_stopwatch @ ''  Total execution time: ''
                              @ elapsed_text env @ '' seconds'' @ Colors_END) w5))))"

definition usage_text :: "string list" where
  "usage_text =
     [''CrateCheck - Rust Crate Quality Validator'',
      ''Usage: python cratecheck.py'',
      NL # ''Runs comprehensive checks for crates.io release readiness:'',
      sym_bullet @ '' Compilation and testing'',
      sym_bullet @ '' Code quality (fmt, clippy)'',
      sym_bullet @ '' Documentation generation'',
      sym_bullet @ '' Package validation'',
      sym_bullet @ '' Metadata verification'']"

text \<open>
  \<open>main\<close> on the argument vector \<open>sys.argv\<close>. The result is the exit code of the process,
  the checker if one was created, and the world. With a help flag \<open>main\<close> returns before
  a checker exists, and the interpreter ends with code 0; otherwise \<open>sys.exit\<close> sets the
  code from the result of \<open>run_all_checks\<close>.
\<close>

definition main :: "env \<Rightarrow> string list \<Rightarrow> world \<Rightarrow> int \<times> checker option \<times> world" where
  "main env argv w =
     (if length argv > 1 \<and> argv ! 1 \<in> set [''-h'', ''--help''] then
        (0, None, print_lines usage_text w)
      else
        (case run_all_checks env (CrateChecker_init, w) of
           (success, c, w1) \<Rightarrow> ((if success then 0 else 1), Some c, w1)))"

text \<open>The world at the start of the process: nothing printed, nothing asked.\<close>

definition world0 :: world where
  "world0 = \<lparr>stdout = [], calls = []\<rparr>"


section \<open>Notions used to state the properties\<close>

text \<open>A command run succeeded when it completed with exit status 0.\<close>

fun succeeded :: "outcome \<Rightarrow> bool" where
  "succeeded (Completed returncode out err) = (returncode = 0)"
| "succeeded TimeoutExpired = False"
| "succeeded (Raised e) = False"

text \<open>The labels a command run with the given description leaves behind: none on success.\<close>

fun failure_labels :: "string \<Rightarrow> outcome \<Rightarrow> string list" where
  "failure_labels description (Completed returncode out err) =
     (if returncode = 0 then [] else [description @ '' - FAILED''])"
| "failure_labels description TimeoutExpired = [description @ '' - TIMEOUT'']"
| "failure_labels description (Raised e) = [description @ '' - ERROR: '' @ e]"

text \<open>The bookkeeping invariant of the spec on the checker object.\<close>

definition bookkeeping :: "checker \<Rightarrow> bool" where
  "bookkeeping c =
     (total_checks c
        = passed_checks c + int (length (failed_checks c)) + int (length (warnings c)))"

text \<open>
  The same with the number of checks made so far: every check is one request to the
  operating system, so that number is the length of \<open>calls\<close>.
\<close>

definition all_recorded :: "state \<Rightarrow> bool" where
  "all_recorded st =
     (case st of (c, w) \<Rightarrow>
        passed_checks c + int (length (failed_checks c)) + int (length (warnings c))
          = int (length (calls w))
        \<and> total_checks c = int (length (calls w)))"

text \<open>
  The number of checks the checker holds a record of: the passed ones and the entries of
  the two lists.
\<close>

definition checks_sum :: "checker \<Rightarrow> int" where
  "checks_sum c = passed_checks c + int (length (failed_checks c)) + int (length (warnings c))"

text \<open>
  \<open>advanced st n st'\<close>: from \<open>st\<close> to \<open>st'\<close> exactly \<open>n\<close> more checks were made and recorded:
  \<open>total_checks\<close> went up by \<open>n\<close>, the recorded checks went up by \<open>n\<close>, and \<open>n\<close> more
  requests were made of the operating system.
\<close>

definition advanced :: "state \<Rightarrow> nat \<Rightarrow> state \<Rightarrow> bool" where
  "advanced st n st' =
     (total_checks (fst st') = total_checks (fst st) + int n
      \<and> checks_sum (fst st') = checks_sum (fst st) + int n
      \<and> length (calls (snd st')) = length (calls (snd st)) + n)"

text \<open>
  The text the spec says \<open>run_command\<close> returns after a non-zero exit: the captured
  standard error, or a generic message (some text, not the empty one) when it is empty.
\<close>

definition stderr_or_generic_message :: "string \<Rightarrow> string \<Rightarrow> bool" where
  "stderr_or_generic_message err returned =
     (if err = [] then returned \<noteq> [] else returned = err)"

text \<open>The help test of \<open>main\<close>.\<close>

definition help_requested :: "string list \<Rightarrow> bool" where
  "help_requested argv = (length argv > 1 \<and> argv ! 1 \<in> set [''-h'', ''--help''])"

text \<open>
  The requests of a phase: one run, with the timeout of 300 seconds, per entry of its list.
\<close>

definition runs_of :: "(string list \<times> string) list \<Rightarrow> syscall list" where
  "runs_of checks = map (\<lambda>(cmd, desc). Run cmd 300) checks"

text \<open>
  The state in which the summary runs, written with the states of the phases alone: the
  flag each phase returns is dropped by \<open>snd\<close>.
\<close>

definition state_at_summary :: "env \<Rightarrow> world \<Rightarrow> state" where
  "state_at_summary env w =
     (case snd (metadata_checks env
            (snd (package_validation env
              (snd (documentation_checks env
                (snd (code_quality_checks env
                  (snd (core_compilation_tests env
                    (snd (check_prerequisites env (CrateChecker_init, print_banner w)))))))))))) of
        (c, w1) \<Rightarrow>
          (c, print (NL # Colors_CYAN @ sym_stopwatch @ ''  Total execution time: ''
                      @ elapsed_text env @ '' seconds'' @ Colors_END) w1))"

subsection \<open>Concrete environments\<close>

text \<open>Every command exits with 0 and every path exists.\<close>

definition env_all_pass :: env where
  "env_all_pass =
     \<lparr>subprocess_run = (\<lambda>n cmd. Completed 0 [] []),
      path_exists = (\<lambda>n f. True),
      elapsed_text = ''1.00''\<rparr>"

text \<open>\<open>git\<close> is not installed: spawning it raises.\<close>

definition env_no_git :: env where
  "env_no_git =
     \<lparr>subprocess_run = (\<lambda>n cmd. if cmd = [''git'', ''--version'']
                                 then Raised ''[Errno 2] No such file or directory''
                                 else Completed 0 [] []),
      path_exists = (\<lambda>n f. True),
      elapsed_text = ''1.00''\<rparr>"

text \<open>\<open>cargo\<close> is not installed, the other tools are.\<close>

definition env_no_cargo :: env where
  "env_no_cargo =
     \<lparr>subprocess_run = (\<lambda>n cmd. if hd cmd = ''cargo''
                                 then Raised ''[Errno 2] No such file or directory''
                                 else Completed 0 [] []),
      path_exists = (\<lambda>n f. True),
      elapsed_text = ''1.00''\<rparr>"

text \<open>Every command exits with 0; of the three files only the manifest exists.\<close>

definition env_only_manifest :: env where
  "env_only_manifest =
     \<lparr>subprocess_run = (\<lambda>n cmd. Completed 0 [] []),
      path_exists = (\<lambda>n f. f = ''Cargo.toml''),
      elapsed_text = ''1.00''\<rparr>"

text \<open>Every command exits with 0; of the three files only the manifest is missing.\<close>

definition env_no_manifest :: env where
  "env_no_manifest =
     \<lparr>subprocess_run = (\<lambda>n cmd. Completed 0 [] []),
      path_exists = (\<lambda>n f. f \<noteq> ''Cargo.toml''),
      elapsed_text = ''1.00''\<rparr>"

text \<open>Every command exits with 1 and writes nothing to standard error.\<close>

definition env_silent_failure :: env where
  "env_silent_failure =
     \<lparr>subprocess_run = (\<lambda>n cmd. Completed 1 [] []),
      path_exists = (\<lambda>n f. True),
      elapsed_text = ''1.00''\<rparr>"

text \<open>Every command runs into the timeout.\<close>

definition env_timeout :: env where
  "env_timeout =
     \<lparr>subprocess_run = (\<lambda>n cmd. TimeoutExpired),
      path_exists = (\<lambda>n f. True),
      elapsed_text = ''1.00''\<rparr>"

section \<open>Supporting lemmas\<close>

subsection \<open>Printing leaves the requests alone\<close>

lemma calls_print [simp]: "calls (print l w) = calls w"
  by (simp add: print_def)

lemma stdout_print [simp]: "stdout (print l w) = stdout w @ [l]"
  by (simp add: print_def)

lemma calls_print_lines [simp]: "calls (print_lines ls w) = calls w"
  unfolding print_lines_def by (induction ls arbitrary: w) simp_all

lemma stdout_print_lines [simp]: "stdout (print_lines ls w) = stdout w @ ls"
  unfolding print_lines_def by (induction ls arbitrary: w) simp_all

lemma calls_print_header [simp]: "calls (print_header title w) = calls w"
  by (simp add: print_header_def Let_def)

lemma calls_print_step [simp]: "calls (print_step step w) = calls w"
  by (simp add: print_step_def)

lemma calls_print_banner [simp]: "calls (print_banner w) = calls w"
  by (simp add: print_banner_def)

subsection \<open>What one command run does\<close>

lemma run_command_effect:
  assumes "run_command env cmd d cr (c, w) = ((ok, msg), c', w')"
  shows "ok = succeeded (subprocess_run env (length (calls w)) cmd)"
    and "calls w' = calls w @ [Run cmd 300]"
    and "total_checks c' = total_checks c + 1"
    and "passed_checks c' = passed_checks c + (if ok then 1 else 0)"
    and "failed_checks c' = failed_checks c
           @ (if cr then failure_labels d (subprocess_run env (length (calls w)) cmd) else [])"
    and "warnings c' = warnings c
           @ (if cr then [] else failure_labels d (subprocess_run env (length (calls w)) cmd))"
  using assms by (auto simp: Let_def split: outcome.splits if_splits)

lemma run_command_text:
  assumes "run_command env cmd d cr (c, w) = ((ok, msg), c', w')"
  shows "msg = (case subprocess_run env (length (calls w)) cmd of
                  Completed rc out err \<Rightarrow> if rc = 0 then out else err
                | TimeoutExpired \<Rightarrow> ''Command timed out''
                | Raised e \<Rightarrow> e)"
  using assms by (auto simp: Let_def split: outcome.splits if_splits)

declare run_command.simps [simp del]

subsection \<open>The count of checks through the loops and phases\<close>

lemma run_command_all_recorded:
  assumes "all_recorded st"
  shows "all_recorded (snd (run_command env cmd d cr st))"
proof -
  obtain c w where st: "st = (c, w)" by (cases st)
  obtain ok msg c' w' where r: "run_command env cmd d cr (c, w) = ((ok, msg), c', w')"
    by (metis surj_pair)
  note e = run_command_effect [OF r]
  have "length (failure_labels d (subprocess_run env (length (calls w)) cmd))
          = (if ok then 0 else 1)"
    unfolding e(1) by (cases "subprocess_run env (length (calls w)) cmd") simp_all
  with assms show ?thesis
    unfolding st r by (simp add: all_recorded_def e(2-6))
qed

lemma metadata_loop_all_recorded:
  "all_recorded st \<Longrightarrow> all_recorded (snd (metadata_loop env files ap st))"
proof (induction files arbitrary: ap st)
  case Nil
  then show ?case by simp
next
  case (Cons a files)
  obtain filename desc where a: "a = (filename, desc)" by (cases a)
  obtain c w where st: "st = (c, w)" by (cases st)
  have "all_recorded (snd (metadata_loop env files ap' (c', w')))"
    if "passed_checks c' + int (length (failed_checks c')) + int (length (warnings c'))
          = int (length (calls w)) + 1"
       "total_checks c' = int (length (calls w)) + 1"
       "calls w' = calls w @ [Exists filename]" for ap' c' w'
    by (rule Cons.IH) (simp add: all_recorded_def that)
  note step = this
  from Cons.prems have p:
    "passed_checks c + int (length (failed_checks c)) + int (length (warnings c))
       = int (length (calls w))"
    "total_checks c = int (length (calls w))"
    by (simp_all add: st all_recorded_def)
  show ?case
    using p unfolding a st by (auto simp: Let_def intro!: step)
qed

lemma checks_loop_all_recorded:
  "all_recorded st \<Longrightarrow> all_recorded (snd (checks_loop env cr checks ap st))"
proof (induction checks arbitrary: ap st)
  case Nil
  then show ?case by simp
next
  case (Cons a checks)
  obtain cmd desc where a: "a = (cmd, desc)" by (cases a)
  obtain c w where st: "st = (c, w)" by (cases st)
  have "all_recorded (c, print_step desc w)"
    using Cons.prems by (simp add: st all_recorded_def)
  then have "all_recorded (snd (run_command env cmd desc cr (c, print_step desc w)))"
    by (rule run_command_all_recorded)
  then show ?case
    unfolding a st by (auto split: prod.splits intro!: Cons.IH)
qed

lemma prerequisites_loop_all_recorded:
  "all_recorded st \<Longrightarrow> all_recorded (snd (prerequisites_loop env tools ag st))"
proof (induction tools arbitrary: ag st)
  case Nil
  then show ?case by simp
next
  case (Cons a tools)
  obtain cmd desc where a: "a = (cmd, desc)" by (cases a)
  have "all_recorded (snd (run_command env cmd desc True st))"
    using Cons.prems by (rule run_command_all_recorded)
  then show ?case
    unfolding a by (auto split: prod.splits intro!: Cons.IH)
qed


lemma all_recorded_same_calls:
  "all_recorded (c, w) \<Longrightarrow> calls w' = calls w \<Longrightarrow> all_recorded (c, w')"
  by (simp add: all_recorded_def)

lemma all_recorded_bookkeeping: "all_recorded st \<Longrightarrow> bookkeeping (fst st)"
  by (cases st) (simp add: all_recorded_def bookkeeping_def)

lemma check_prerequisites_all_recorded:
  "all_recorded st \<Longrightarrow> all_recorded (snd (check_prerequisites env st))"
  by (cases st)
     (auto simp: check_prerequisites_def
           intro!: prerequisites_loop_all_recorded elim: all_recorded_same_calls)

lemma command_phases_all_recorded:
  assumes "all_recorded st"
  shows "all_recorded (snd (core_compilation_tests env st))"
    and "all_recorded (snd (code_quality_checks env st))"
    and "all_recorded (snd (documentation_checks env st))"
    and "all_recorded (snd (package_validation env st))"
  using assms
  by (cases st;
      auto simp: core_compilation_tests_def code_quality_checks_def documentation_checks_def
                 package_validation_def
           intro!: checks_loop_all_recorded elim: all_recorded_same_calls)+

lemma metadata_checks_all_recorded:
  "all_recorded st \<Longrightarrow> all_recorded (snd (metadata_checks env st))"
  by (cases st)
     (auto simp: metadata_checks_def
           intro!: metadata_loop_all_recorded elim: all_recorded_same_calls)

subsection \<open>The summary and the two ways a run ends\<close>

lemma print_summary_effect:
  assumes "print_summary (c, w) = (ok, c', w')"
  shows "c' = c"
    and "calls w' = calls w"
    and "ok = (failed_checks c = [] \<and> warnings c = [])"
    and "\<exists>pre. stdout w' = pre
            @ (if failed_checks c = [] \<and> warnings c = [] then verdict_ready
               else if failed_checks c = [] then verdict_warnings
               else verdict_not_ready)"
  using assms by (auto simp: print_summary_def Let_def split: if_splits)

lemma all_recorded_init: "all_recorded (CrateChecker_init, world0)"
  by (simp add: all_recorded_def CrateChecker_init_def world0_def)

lemma state_at_summary_all_recorded:
  "calls w = [] \<Longrightarrow> all_recorded (state_at_summary env w)"
proof -
  assume "calls w = []"
  then have "all_recorded (CrateChecker_init, print_banner w)"
    by (simp add: all_recorded_def CrateChecker_init_def)
  then have "all_recorded (snd (metadata_checks env
            (snd (package_validation env
              (snd (documentation_checks env
                (snd (code_quality_checks env
                  (snd (core_compilation_tests env
                    (snd (check_prerequisites env (CrateChecker_init, print_banner w)))))))))))))"
    by (intro metadata_checks_all_recorded command_phases_all_recorded
          check_prerequisites_all_recorded)
  then show ?thesis
    unfolding state_at_summary_def all_recorded_def
    by (auto split: prod.splits)
qed

lemma run_all_checks_completed:
  assumes "fst (check_prerequisites env (CrateChecker_init, print_banner w))"
  shows "run_all_checks env (CrateChecker_init, w) = print_summary (state_at_summary env w)"
proof -
  obtain ok c0 w0 where
    cp: "check_prerequisites env (CrateChecker_init, print_banner w) = (ok, c0, w0)"
    by (metis surj_pair)
  with assms have ok by simp
  then show ?thesis
    by (simp add: run_all_checks_def state_at_summary_def cp split: prod.splits)
qed

subsection \<open>The three prerequisite commands\<close>

lemma check_prerequisites_effect:
  assumes "check_prerequisites env (c, w) = (ok, c', w')"
  shows "ok = (succeeded (subprocess_run env (length (calls w)) [''cargo'', ''--version''])
             \<and> succeeded (subprocess_run env (length (calls w) + 1) [''rustc'', ''--version''])
             \<and> succeeded (subprocess_run env (length (calls w) + 2) [''git'', ''--version'']))"
    and "calls w' = calls w @ runs_of prerequisite_tools"
    and "total_checks c' = total_checks c + 3"
    and "failed_checks c' = failed_checks c
           @ failure_labels ''Cargo availability''
               (subprocess_run env (length (calls w)) [''cargo'', ''--version''])
           @ failure_labels ''Rust compiler availability''
               (subprocess_run env (length (calls w) + 1) [''rustc'', ''--version''])
           @ failure_labels ''Git availability''
               (subprocess_run env (length (calls w) + 2) [''git'', ''--version''])"
    and "warnings c' = warnings c"
proof -
  obtain ok1 m1 c1 w1 where r1:
    "run_command env [''cargo'', ''--version''] ''Cargo availability'' True
       (c, print_header ''PREREQUISITE CHECKS'' w) = ((ok1, m1), c1, w1)"
    by (metis surj_pair)
  obtain ok2 m2 c2 w2 where r2:
    "run_command env [''rustc'', ''--version''] ''Rust compiler availability'' True (c1, w1)
       = ((ok2, m2), c2, w2)"
    by (metis surj_pair)
  obtain ok3 m3 c3 w3 where r3:
    "run_command env [''git'', ''--version''] ''Git availability'' True (c2, w2)
       = ((ok3, m3), c3, w3)"
    by (metis surj_pair)
  note e1 = run_command_effect [OF r1]
  note e2 = run_command_effect [OF r2]
  note e3 = run_command_effect [OF r3]
  have "check_prerequisites env (c, w) = (ok1 \<and> ok2 \<and> ok3, c3, w3)"
    by (auto simp: check_prerequisites_def prerequisite_tools_def r1 r2 r3)
  with assms have eq: "ok = (ok1 \<and> ok2 \<and> ok3)" "c' = c3" "w' = w3"
    by simp_all
  have n1: "length (calls w1) = length (calls w) + 1"
    and n2: "length (calls w2) = length (calls w) + 2"
    by (simp_all add: e1(2) e2(2))
  show "ok = (succeeded (subprocess_run env (length (calls w)) [''cargo'', ''--version''])
             \<and> succeeded (subprocess_run env (length (calls w) + 1) [''rustc'', ''--version''])
             \<and> succeeded (subprocess_run env (length (calls w) + 2) [''git'', ''--version'']))"
    using e1(1) e2(1) e3(1) by (simp add: eq n1 n2)
  show "calls w' = calls w @ runs_of prerequisite_tools"
    by (simp add: eq e1(2) e2(2) e3(2) runs_of_def prerequisite_tools_def)
  show "total_checks c' = total_checks c + 3"
    by (simp add: eq e1(3) e2(3) e3(3))
  show "failed_checks c' = failed_checks c
           @ failure_labels ''Cargo availability''
               (subprocess_run env (length (calls w)) [''cargo'', ''--version''])
           @ failure_labels ''Rust compiler availability''
               (subprocess_run env (length (calls w) + 1) [''rustc'', ''--version''])
           @ failure_labels ''Git availability''
               (subprocess_run env (length (calls w) + 2) [''git'', ''--version''])"
    using e1(5) e2(5) e3(5) by (simp add: eq n1 n2)
  show "warnings c' = warnings c"
    by (simp add: eq e1(6) e2(6) e3(6))
qed

subsection \<open>The verdict lines and the help test\<close>


lemma suffix_last: "suffix xs ys \<Longrightarrow> xs \<noteq> [] \<Longrightarrow> last ys = last xs"
  by (auto simp: suffix_def)

lemma verdict_last_lines:
  "last verdict_ready \<noteq> last verdict_warnings"
  "last verdict_ready \<noteq> last verdict_not_ready"
  "last verdict_warnings \<noteq> last verdict_not_ready"
  by (simp_all add: verdict_ready_def verdict_warnings_def verdict_not_ready_def
        Colors_GREEN_def Colors_YELLOW_def Colors_RED_def)

lemma verdicts_nonempty:
  "verdict_ready \<noteq> []" "verdict_warnings \<noteq> []" "verdict_not_ready \<noteq> []"
  by (simp_all add: verdict_ready_def verdict_warnings_def verdict_not_ready_def)

lemma verdicts_exclusive:
  "\<not> suffix verdict_warnings (pre @ verdict_ready)"
  "\<not> suffix verdict_not_ready (pre @ verdict_ready)"
  "\<not> suffix verdict_ready (pre @ verdict_warnings)"
  "\<not> suffix verdict_not_ready (pre @ verdict_warnings)"
  "\<not> suffix verdict_ready (pre @ verdict_not_ready)"
  "\<not> suffix verdict_warnings (pre @ verdict_not_ready)"
  using verdict_last_lines verdicts_nonempty
  by (auto dest!: suffix_last)

lemma main_no_help:
  "\<not> help_requested argv \<Longrightarrow>
   main env argv w =
     (case run_all_checks env (CrateChecker_init, w) of
        (success, c, w1) \<Rightarrow> ((if success then 0 else 1), Some c, w1))"
  by (auto simp: main_def help_requested_def)

subsection \<open>Runs in which nothing fails\<close>

lemma loops_keep_lists_when_all_succeed:
  assumes "\<And>n cmd. succeeded (subprocess_run env n cmd)"
  shows "failed_checks (fst (snd (checks_loop env cr checks ap st))) = failed_checks (fst st)
       \<and> warnings (fst (snd (checks_loop env cr checks ap st))) = warnings (fst st)"
proof (induction checks arbitrary: ap st)
  case Nil
  then show ?case by simp
next
  case (Cons a checks)
  obtain cmd desc where a: "a = (cmd, desc)" by (cases a)
  obtain c w where st: "st = (c, w)" by (cases st)
  obtain ok msg c' w' where r:
    "run_command env cmd desc cr (c, print_step desc w) = ((ok, msg), c', w')"
    by (metis surj_pair)
  note e = run_command_effect [OF r]
  have l: "failure_labels desc (subprocess_run env n cmd) = []" for n
    using assms [of n cmd] by (cases "subprocess_run env n cmd") simp_all
  show ?case
    unfolding a st by (simp add: r Cons.IH e(5,6) l)
qed

lemma metadata_keeps_lists_when_all_exist:
  assumes "\<And>n f. path_exists env n f"
  shows "failed_checks (fst (snd (metadata_loop env files ap st))) = failed_checks (fst st)
       \<and> warnings (fst (snd (metadata_loop env files ap st))) = warnings (fst st)"
proof (induction files arbitrary: ap st)
  case Nil
  then show ?case by simp
next
  case (Cons a files)
  obtain f desc where a: "a = (f, desc)" by (cases a)
  obtain c w where st: "st = (c, w)" by (cases st)
  show ?case
    unfolding a st by (simp add: Let_def assms Cons.IH)
qed

lemma metadata_loop_failed_checks:
  "failed_checks (fst (snd (metadata_loop env files ap st))) = failed_checks (fst st)"
proof (induction files arbitrary: ap st)
  case Nil
  then show ?case by simp
next
  case (Cons a files)
  obtain f desc where a: "a = (f, desc)" by (cases a)
  obtain c w where st: "st = (c, w)" by (cases st)
  show ?case
    unfolding a st by (simp add: Let_def Cons.IH)
qed

lemma all_pass_lists_empty:
  assumes "\<And>n cmd. succeeded (subprocess_run env n cmd)" and "\<And>n f. path_exists env n f"
  shows "failed_checks (fst (state_at_summary env w)) = []"
    and "warnings (fst (state_at_summary env w)) = []"
proof -
  let ?s0 = "snd (check_prerequisites env (CrateChecker_init, print_banner w))"
  obtain ok c0 w0 where cp:
    "check_prerequisites env (CrateChecker_init, print_banner w) = (ok, c0, w0)"
    by (metis surj_pair)
  have l: "failure_labels desc (subprocess_run env n cmd) = []" for n cmd desc
    using assms(1) [of n cmd] by (cases "subprocess_run env n cmd") simp_all
  have "failed_checks c0 = [] \<and> warnings c0 = []"
    using check_prerequisites_effect(4,5) [OF cp]
    by (simp add: l CrateChecker_init_def)
  then have s0: "failed_checks (fst ?s0) = [] \<and> warnings (fst ?s0) = []"
    by (simp add: cp)
  note k = loops_keep_lists_when_all_succeed [OF assms(1)]
  note m = metadata_keeps_lists_when_all_exist [OF assms(2)]
  have phases:
    "failed_checks (fst (snd (core_compilation_tests env st))) = failed_checks (fst st)
       \<and> warnings (fst (snd (core_compilation_tests env st))) = warnings (fst st)"
    "failed_checks (fst (snd (code_quality_checks env st))) = failed_checks (fst st)
       \<and> warnings (fst (snd (code_quality_checks env st))) = warnings (fst st)"
    "failed_checks (fst (snd (documentation_checks env st))) = failed_checks (fst st)
       \<and> warnings (fst (snd (documentation_checks env st))) = warnings (fst st)"
    "failed_checks (fst (snd (package_validation env st))) = failed_checks (fst st)
       \<and> warnings (fst (snd (package_validation env st))) = warnings (fst st)"
    "failed_checks (fst (snd (metadata_checks env st))) = failed_checks (fst st)
       \<and> warnings (fst (snd (metadata_checks env st))) = warnings (fst st)" for st
    by (cases st; simp add: core_compilation_tests_def code_quality_checks_def
          documentation_checks_def package_validation_def metadata_checks_def k m)+
  show "failed_checks (fst (state_at_summary env w)) = []"
    and "warnings (fst (state_at_summary env w)) = []"
    unfolding state_at_summary_def
    by (simp_all add: phases s0 split_beta)
qed

lemma prerequisites_pass:
  assumes "\<And>n cmd. succeeded (subprocess_run env n cmd)"
  shows "fst (check_prerequisites env (c, w))"
proof -
  obtain ok c0 w0 where cp: "check_prerequisites env (c, w) = (ok, c0, w0)"
    by (metis surj_pair)
  show ?thesis
    using check_prerequisites_effect(1) [OF cp] by (simp add: cp assms)
qed

section \<open>The verdict\<close>

text \<open>
  Claim C1. A run that gets past the prerequisites ends in exactly one of three verdicts,
  decided by the two lists of the checker when the summary runs: both empty gives the
  "ready" lines and exit code 0; no critical failure but a warning gives the "warnings
  must be fixed" lines and exit code 1; a critical failure gives the "not ready" lines
  and exit code 1. The verdict is the end of what was printed, and the ends of the three
  verdicts differ, so no two of them hold together.
\<close>

theorem verdict_of_completed_run:
  assumes "\<not> help_requested argv"
    and "fst (check_prerequisites env (CrateChecker_init, print_banner w))"
    and "main env argv w = (code, r, w')"
  shows "let c = fst (state_at_summary env w) in
         r = Some c \<and>
         (if failed_checks c = [] \<and> warnings c = [] then
            code = 0 \<and> suffix verdict_ready (stdout w')
            \<and> \<not> suffix verdict_warnings (stdout w') \<and> \<not> suffix verdict_not_ready (stdout w')
          else if failed_checks c = [] then
            code = 1 \<and> suffix verdict_warnings (stdout w')
            \<and> \<not> suffix verdict_ready (stdout w') \<and> \<not> suffix verdict_not_ready (stdout w')
          else
            code = 1 \<and> suffix verdict_not_ready (stdout w')
            \<and> \<not> suffix verdict_ready (stdout w') \<and> \<not> suffix verdict_warnings (stdout w'))"
proof -
  obtain c w0 where s: "state_at_summary env w = (c, w0)" by (cases "state_at_summary env w")
  obtain ok c1 w1 where ps: "print_summary (c, w0) = (ok, c1, w1)" by (metis surj_pair)
  note e = print_summary_effect [OF ps]
  from e(4) obtain pre where pre: "stdout w1 = pre
            @ (if failed_checks c = [] \<and> warnings c = [] then verdict_ready
               else if failed_checks c = [] then verdict_warnings
               else verdict_not_ready)" ..
  have "main env argv w = ((if ok then 0 else 1), Some c1, w1)"
    by (simp add: main_no_help [OF assms(1)] run_all_checks_completed [OF assms(2)] s ps)
  with assms(3) have eq: "code = (if ok then 0 else 1)" "r = Some c" "w' = w1"
    by (simp_all add: e(1))
  show ?thesis
    unfolding Let_def s fst_conv eq e(3) pre
    by (simp add: verdicts_exclusive suffix_appendI)
qed

theorem verdict_of_completed_run_witness:
  "fst (main env_all_pass [''cratecheck.py''] world0) = 0
   \<and> suffix verdict_ready (stdout (snd (snd (main env_all_pass [''cratecheck.py''] world0))))"
proof -
  have s: "\<And>n cmd. succeeded (subprocess_run env_all_pass n cmd)"
    and p: "\<And>n f. path_exists env_all_pass n f"
    by (simp_all add: env_all_pass_def)
  have h: "\<not> help_requested [''cratecheck.py'']"
    by (simp add: help_requested_def)
  have pp: "fst (check_prerequisites env_all_pass (CrateChecker_init, print_banner world0))"
    by (rule prerequisites_pass [OF s])
  have m: "main env_all_pass [''cratecheck.py''] world0
             = (fst (main env_all_pass [''cratecheck.py''] world0),
                fst (snd (main env_all_pass [''cratecheck.py''] world0)),
                snd (snd (main env_all_pass [''cratecheck.py''] world0)))"
    by simp
  from verdict_of_completed_run [OF h pp m] show ?thesis
    by (simp add: all_pass_lists_empty [OF s p])
qed

section \<open>The metadata phase\<close>

lemma metadata_checks_only_manifest:
  assumes "path_exists env (length (calls w)) ''Cargo.toml''"
    and "\<not> path_exists env (length (calls w) + 1) ''README.md''"
    and "\<not> path_exists env (length (calls w) + 2) ''LICENSE''"
  shows "\<exists>w'. metadata_checks env (c, w) =
           (True,
            c\<lparr>passed_checks := passed_checks c + 1,
              warnings := warnings c @ [''README file missing'', ''License file missing''],
              total_checks := total_checks c + 3\<rparr>, w')"
  using assms
  by (simp add: metadata_checks_def required_files_def Let_def)

text \<open>
  Claim C7. With the manifest present and both \<open>README.md\<close> and \<open>LICENSE\<close> absent (at the
  moments the phase looks), the metadata phase appends exactly two warnings and no
  critical failure, raises \<open>total_checks\<close> by 3 and \<open>passed_checks\<close> by 1.
\<close>

theorem metadata_with_only_manifest:
  assumes "path_exists env (length (calls w)) ''Cargo.toml''"
    and "\<not> path_exists env (length (calls w) + 1) ''README.md''"
    and "\<not> path_exists env (length (calls w) + 2) ''LICENSE''"
  shows "let c' = fst (snd (metadata_checks env (c, w))) in
           warnings c' = warnings c @ [''README file missing'', ''License file missing'']
         \<and> failed_checks c' = failed_checks c
         \<and> total_checks c' = total_checks c + 3
         \<and> passed_checks c' = passed_checks c + 1"
proof -
  from metadata_checks_only_manifest [OF assms] obtain w' where
    "metadata_checks env (c, w) =
           (True,
            c\<lparr>passed_checks := passed_checks c + 1,
              warnings := warnings c @ [''README file missing'', ''License file missing''],
              total_checks := total_checks c + 3\<rparr>, w')" ..
  then show ?thesis by simp
qed

theorem metadata_with_only_manifest_witness:
  "warnings (fst (snd (metadata_checks env_only_manifest (CrateChecker_init, world0))))
     = [''README file missing'', ''License file missing'']
   \<and> failed_checks (fst (snd (metadata_checks env_only_manifest (CrateChecker_init, world0)))) = []
   \<and> total_checks (fst (snd (metadata_checks env_only_manifest (CrateChecker_init, world0)))) = 3
   \<and> passed_checks (fst (snd (metadata_checks env_only_manifest (CrateChecker_init, world0)))) = 1"
  using metadata_with_only_manifest [of env_only_manifest world0 CrateChecker_init]
  by (simp add: env_only_manifest_def world0_def CrateChecker_init_def Let_def)

text \<open>
  Claim C3. The spec has a missing manifest recorded as a critical failure. The code
  appends every missing file to \<open>warnings\<close>; for the manifest it only clears the flag that
  \<open>metadata_checks\<close> returns. With every command passing and only \<open>Cargo.toml\<close> missing,
  the phase leaves \<open>failed_checks\<close> empty and holds the manifest among the warnings.
\<close>

theorem missing_manifest_recorded_as_warning:
  "fst (metadata_checks env_no_manifest (CrateChecker_init, world0)) = False
   \<and> failed_checks (fst (snd (metadata_checks env_no_manifest (CrateChecker_init, world0)))) = []
   \<and> warnings (fst (snd (metadata_checks env_no_manifest (CrateChecker_init, world0))))
       = [''Cargo manifest missing'']"
  by (simp add: metadata_checks_def required_files_def Let_def env_no_manifest_def
        CrateChecker_init_def)

section \<open>The command executor\<close>

text \<open>
  Claim C4, as the spec states it, fails: after a non-zero exit with nothing captured on
  standard error the returned text is the empty string, not a message.
\<close>

theorem silent_failure_returns_empty_text:
  "\<not> stderr_or_generic_message []
       (snd (fst (run_command env_silent_failure [''cargo'', ''check'']
                    ''Basic compilation check'' True (CrateChecker_init, world0))))"
  by (simp add: run_command.simps env_silent_failure_def Let_def stderr_or_generic_message_def)

text \<open>
  Claim C4, amended. After a non-zero exit \<open>run_command\<close> returns \<open>False\<close> and the captured
  standard error as it is, empty or not; the label \<open>description - FAILED\<close> goes to
  \<open>failed_checks\<close> when the call is critical and to \<open>warnings\<close> otherwise, and nothing is
  counted as passed.
\<close>

theorem nonzero_exit_returns_stderr:
  assumes "subprocess_run env (length (calls w)) cmd = Completed returncode out err"
    and "returncode \<noteq> 0"
  shows "let c' = fst (snd (run_command env cmd description critical (c, w))) in
           fst (run_command env cmd description critical (c, w)) = (False, err)
         \<and> passed_checks c' = passed_checks c
         \<and> failed_checks c'
             = failed_checks c @ (if critical then [description @ '' - FAILED''] else [])
         \<and> warnings c'
             = warnings c @ (if critical then [] else [description @ '' - FAILED''])"
  using assms by (simp add: run_command.simps Let_def)

theorem nonzero_exit_returns_stderr_witness:
  "fst (run_command env_silent_failure [''cargo'', ''doc'', ''--no-deps'']
          ''Basic documentation'' False (CrateChecker_init, world0)) = (False, [])
   \<and> warnings (fst (snd (run_command env_silent_failure [''cargo'', ''doc'', ''--no-deps'']
          ''Basic documentation'' False (CrateChecker_init, world0))))
       = [''Basic documentation - FAILED'']"
  using nonzero_exit_returns_stderr [of env_silent_failure world0
          "[''cargo'', ''doc'', ''--no-deps'']" 1 "[]" "[]" "''Basic documentation''" False
          CrateChecker_init]
  by (simp add: env_silent_failure_def CrateChecker_init_def Let_def)

text \<open>
  The part of claim C6 that the script decides: when \<open>subprocess.run\<close> raises
  \<open>TimeoutExpired\<close> (the call is always made with a timeout of 300 seconds), the check is
  recorded under the label \<open>description - TIMEOUT\<close>, which is never the label
  \<open>description - FAILED\<close> of a non-zero exit, and the text returned is
  \<open>Command timed out\<close>. What becomes of the child process is decided inside
  \<open>subprocess.run\<close>.
\<close>

lemma timeout_is_labelled:
  assumes "subprocess_run env (length (calls w)) cmd = TimeoutExpired"
  shows "fst (run_command env cmd description critical (c, w)) = (False, ''Command timed out'')"
    and "failed_checks (fst (snd (run_command env cmd description critical (c, w))))
           = failed_checks c @ (if critical then [description @ '' - TIMEOUT''] else [])"
    and "warnings (fst (snd (run_command env cmd description critical (c, w))))
           = warnings c @ (if critical then [] else [description @ '' - TIMEOUT''])"
    and "calls (snd (snd (run_command env cmd description critical (c, w))))
           = calls w @ [Run cmd 300]"
    and "description @ '' - TIMEOUT'' \<noteq> description @ '' - FAILED''"
  using assms by (simp_all add: run_command.simps Let_def)

section \<open>The help flag\<close>



section \<open>The prerequisites and the abort\<close>

lemma run_all_checks_aborted:
  assumes "check_prerequisites env (CrateChecker_init, print_banner w) = (False, c0, w0)"
  shows "run_all_checks env (CrateChecker_init, w) =
           (False, c0,
            print (NL # Colors_RED @ sym_cross @ '' Prerequisites failed. Cannot continue.''
                    @ Colors_END) w0)"
  by (simp add: run_all_checks_def assms)

text \<open>
  Claim C10. \<open>check_prerequisites\<close> runs all three tools whatever the earlier ones did: from
  any state it makes exactly the three requests, raises \<open>total_checks\<close> by 3, appends the
  label of every tool that failed to \<open>failed_checks\<close>, in order, and returns whether all
  three succeeded. So when the run aborts, the checker that \<open>main\<close> ends with has
  \<open>total_checks = 3\<close> and holds every failed prerequisite among its critical failures.
\<close>

theorem prerequisites_do_not_short_circuit:
  "(let n = length (calls w);
        o1 = subprocess_run env n [''cargo'', ''--version''];
        o2 = subprocess_run env (n + 1) [''rustc'', ''--version''];
        o3 = subprocess_run env (n + 2) [''git'', ''--version''];
        labels = failure_labels ''Cargo availability'' o1
                 @ failure_labels ''Rust compiler availability'' o2
                 @ failure_labels ''Git availability'' o3
    in (case check_prerequisites env (c, w) of
          (ok, c', w') \<Rightarrow>
            ok = (succeeded o1 \<and> succeeded o2 \<and> succeeded o3)
            \<and> calls w' = calls w @ [Run [''cargo'', ''--version''] 300,
                                     Run [''rustc'', ''--version''] 300,
                                     Run [''git'', ''--version''] 300]
            \<and> total_checks c' = total_checks c + 3
            \<and> failed_checks c' = failed_checks c @ labels)
       \<and> (\<not> help_requested argv \<and> \<not> (succeeded o1 \<and> succeeded o2 \<and> succeeded o3) \<longrightarrow>
            (\<exists>c'. fst (snd (main env argv w)) = Some c'
                   \<and> total_checks c' = 3 \<and> failed_checks c' = labels)))"
proof -
  obtain ok c1 w1 where cp: "check_prerequisites env (c, w) = (ok, c1, w1)"
    by (metis surj_pair)
  note e = check_prerequisites_effect [OF cp]
  obtain ok0 c0 w0 where cp0:
    "check_prerequisites env (CrateChecker_init, print_banner w) = (ok0, c0, w0)"
    by (metis surj_pair)
  note e0 = check_prerequisites_effect [OF cp0]
  have abort: "fst (snd (main env argv w)) = Some c0" if "\<not> help_requested argv" "\<not> ok0"
    using that by (simp add: main_no_help run_all_checks_aborted cp0)
  have init: "total_checks c0 = 3"
    "failed_checks c0 =
       failure_labels ''Cargo availability''
         (subprocess_run env (length (calls w)) [''cargo'', ''--version''])
       @ failure_labels ''Rust compiler availability''
         (subprocess_run env (length (calls w) + 1) [''rustc'', ''--version''])
       @ failure_labels ''Git availability''
         (subprocess_run env (length (calls w) + 2) [''git'', ''--version''])"
    using e0(3,4) by (simp_all add: CrateChecker_init_def)
  have ok0: "ok0 = (succeeded (subprocess_run env (length (calls w)) [''cargo'', ''--version''])
             \<and> succeeded (subprocess_run env (length (calls w) + 1) [''rustc'', ''--version''])
             \<and> succeeded (subprocess_run env (length (calls w) + 2) [''git'', ''--version'']))"
    using e0(1) by simp
  have first: "calls w1 = calls w @ [Run [''cargo'', ''--version''] 300,
                                     Run [''rustc'', ''--version''] 300,
                                     Run [''git'', ''--version''] 300]"
    using e(2) by (simp add: runs_of_def prerequisite_tools_def)
  show ?thesis
    unfolding Let_def cp prod.case
    using e(1) first e(3) e(4) abort init ok0
    by blast
qed

theorem prerequisites_do_not_short_circuit_witness:
  "(case check_prerequisites env_no_cargo (CrateChecker_init, world0) of
      (ok, c', w') \<Rightarrow>
        \<not> ok
        \<and> calls w' = [Run [''cargo'', ''--version''] 300,
                      Run [''rustc'', ''--version''] 300,
                      Run [''git'', ''--version''] 300]
        \<and> total_checks c' = 3
        \<and> failed_checks c'
            = [''Cargo availability - ERROR: [Errno 2] No such file or directory''])
   \<and> (\<exists>c'. fst (snd (main env_no_cargo [''cratecheck.py''] world0)) = Some c'
            \<and> total_checks c' = 3
            \<and> failed_checks c'
                = [''Cargo availability - ERROR: [Errno 2] No such file or directory''])"
  using prerequisites_do_not_short_circuit
          [of world0 env_no_cargo CrateChecker_init "[''cratecheck.py'']"]
  by (simp add: env_no_cargo_def world0_def CrateChecker_init_def help_requested_def Let_def
           split: prod.splits)

text \<open>
  Claim C5. When one of the three prerequisite commands fails, the requests of the whole
  run are the three prerequisite commands and nothing else (no command of a later phase,
  no existence test), and the process exits with code 1.
\<close>

theorem prerequisite_failure_aborts:
  assumes "\<not> help_requested argv"
    and "\<not> (succeeded (subprocess_run env (length (calls w)) [''cargo'', ''--version''])
             \<and> succeeded (subprocess_run env (length (calls w) + 1) [''rustc'', ''--version''])
             \<and> succeeded (subprocess_run env (length (calls w) + 2) [''git'', ''--version'']))"
  shows "fst (main env argv w) = 1
       \<and> calls (snd (snd (main env argv w)))
           = calls w @ [Run [''cargo'', ''--version''] 300,
                        Run [''rustc'', ''--version''] 300,
                        Run [''git'', ''--version''] 300]"
proof -
  obtain ok0 c0 w0 where cp0:
    "check_prerequisites env (CrateChecker_init, print_banner w) = (ok0, c0, w0)"
    by (metis surj_pair)
  note e0 = check_prerequisites_effect [OF cp0]
  from e0(1) assms(2) have "\<not> ok0" by simp
  then have "main env argv w =
           (1, Some c0,
            print (NL # Colors_RED @ sym_cross @ '' Prerequisites failed. Cannot continue.''
                    @ Colors_END) w0)"
    using cp0 by (simp add: main_no_help [OF assms(1)] run_all_checks_aborted)
  then show ?thesis
    using e0(2) by (simp add: runs_of_def prerequisite_tools_def)
qed

theorem prerequisite_failure_aborts_witness:
  "fst (main env_no_git [''cratecheck.py''] world0) = 1
   \<and> calls (snd (snd (main env_no_git [''cratecheck.py''] world0)))
       = [Run [''cargo'', ''--version''] 300,
          Run [''rustc'', ''--version''] 300,
          Run [''git'', ''--version''] 300]"
  using prerequisite_failure_aborts [of "[''cratecheck.py'']" env_no_git world0]
  by (simp add: env_no_git_def world0_def help_requested_def)

section \<open>The flags returned by the phases\<close>

lemma command_phases_keep_lists:
  assumes "\<And>n cmd. succeeded (subprocess_run env n cmd)"
  shows "failed_checks (fst (snd (core_compilation_tests env st))) = failed_checks (fst st)
       \<and> warnings (fst (snd (core_compilation_tests env st))) = warnings (fst st)"
    and "failed_checks (fst (snd (code_quality_checks env st))) = failed_checks (fst st)
       \<and> warnings (fst (snd (code_quality_checks env st))) = warnings (fst st)"
    and "failed_checks (fst (snd (documentation_checks env st))) = failed_checks (fst st)
       \<and> warnings (fst (snd (documentation_checks env st))) = warnings (fst st)"
    and "failed_checks (fst (snd (package_validation env st))) = failed_checks (fst st)
       \<and> warnings (fst (snd (package_validation env st))) = warnings (fst st)"
  by (cases st; simp add: core_compilation_tests_def code_quality_checks_def
        documentation_checks_def package_validation_def
        loops_keep_lists_when_all_succeed [OF assms])+

lemma no_manifest_metadata:
  "fst (metadata_checks env_no_manifest st) = False"
  "failed_checks (fst (snd (metadata_checks env_no_manifest st))) = failed_checks (fst st)"
  "warnings (fst (snd (metadata_checks env_no_manifest st)))
     = warnings (fst st) @ [''Cargo manifest missing'']"
  by (cases st; simp add: metadata_checks_def required_files_def Let_def env_no_manifest_def)+

lemma no_manifest_lists:
  "failed_checks (fst (state_at_summary env_no_manifest w)) = []"
  "warnings (fst (state_at_summary env_no_manifest w)) = [''Cargo manifest missing'']"
proof -
  have s: "\<And>n cmd. succeeded (subprocess_run env_no_manifest n cmd)"
    by (simp add: env_no_manifest_def)
  obtain ok c0 w0 where cp:
    "check_prerequisites env_no_manifest (CrateChecker_init, print_banner w) = (ok, c0, w0)"
    by (metis surj_pair)
  have l: "failure_labels desc (subprocess_run env_no_manifest n cmd) = []" for n cmd desc
    by (simp add: env_no_manifest_def)
  have "failed_checks c0 = [] \<and> warnings c0 = []"
    using check_prerequisites_effect(4,5) [OF cp]
    by (simp add: l CrateChecker_init_def)
  then have s0:
    "failed_checks (fst (snd (check_prerequisites env_no_manifest
        (CrateChecker_init, print_banner w)))) = []"
    "warnings (fst (snd (check_prerequisites env_no_manifest
        (CrateChecker_init, print_banner w)))) = []"
    by (simp_all add: cp)
  show "failed_checks (fst (state_at_summary env_no_manifest w)) = []"
    and "warnings (fst (state_at_summary env_no_manifest w)) = [''Cargo manifest missing'']"
    unfolding state_at_summary_def
    by (simp_all add: split_beta no_manifest_metadata command_phases_keep_lists [OF s] s0)
qed

text \<open>
  Claim C9. In a run that gets past the prerequisites, the flags that the five later
  phases return do not reach the result: what \<open>main\<close> yields is the summary of the state
  that the phases hand on (\<open>state_at_summary\<close> is written with the states alone), and
  the exit code is 0 exactly when both lists of that state are empty.
\<close>

theorem phase_flags_do_not_reach_the_verdict:
  assumes "\<not> help_requested argv"
    and "fst (check_prerequisites env (CrateChecker_init, print_banner w))"
  shows "main env argv w =
           (case print_summary (state_at_summary env w) of
              (success, c, w1) \<Rightarrow> ((if success then 0 else 1), Some c, w1))
       \<and> (fst (main env argv w) = 0 \<longleftrightarrow>
            failed_checks (fst (state_at_summary env w)) = []
            \<and> warnings (fst (state_at_summary env w)) = [])"
proof -
  obtain c w0 where s: "state_at_summary env w = (c, w0)" by (cases "state_at_summary env w")
  obtain ok c1 w1 where ps: "print_summary (c, w0) = (ok, c1, w1)" by (metis surj_pair)
  note e = print_summary_effect [OF ps]
  have m: "main env argv w =
           (case print_summary (state_at_summary env w) of
              (success, c, w1) \<Rightarrow> ((if success then 0 else 1), Some c, w1))"
    by (simp add: main_no_help [OF assms(1)] run_all_checks_completed [OF assms(2)])
  then have "fst (main env argv w) = (if ok then 0 else 1)"
    by (simp add: s ps)
  with e(3) have "fst (main env argv w) = 0 \<longleftrightarrow> failed_checks c = [] \<and> warnings c = []"
    by simp
  with m show ?thesis by (simp add: s)
qed

theorem phase_flags_do_not_reach_the_verdict_witness:
  "fst (metadata_checks env_no_manifest
         (snd (package_validation env_no_manifest
           (snd (documentation_checks env_no_manifest
             (snd (code_quality_checks env_no_manifest
               (snd (core_compilation_tests env_no_manifest
                 (snd (check_prerequisites env_no_manifest
                        (CrateChecker_init, print_banner world0)))))))))))) = False
   \<and> fst (main env_no_manifest [''cratecheck.py''] world0) = 1
   \<and> failed_checks (fst (state_at_summary env_no_manifest world0)) = []
   \<and> warnings (fst (state_at_summary env_no_manifest world0)) = [''Cargo manifest missing'']"
proof -
  have s: "\<And>n cmd. succeeded (subprocess_run env_no_manifest n cmd)"
    by (simp add: env_no_manifest_def)
  have h: "\<not> help_requested [''cratecheck.py'']"
    by (simp add: help_requested_def)
  have pp: "fst (check_prerequisites env_no_manifest (CrateChecker_init, print_banner world0))"
    by (rule prerequisites_pass [OF s])
  have "fst (main env_no_manifest [''cratecheck.py''] world0) \<noteq> 0"
    using phase_flags_do_not_reach_the_verdict [OF h pp, THEN conjunct2]
    by (simp add: no_manifest_lists)
  moreover have "fst (main env_no_manifest [''cratecheck.py''] world0) \<in> {0, 1}"
    by (simp add: main_no_help [OF h] split_beta)
  ultimately show ?thesis
    by (simp add: no_manifest_metadata no_manifest_lists)
qed

section \<open>The bookkeeping invariant\<close>

lemma run_command_bookkeeping:
  assumes "bookkeeping (fst st)"
  shows "bookkeeping (fst (snd (run_command env cmd d cr st)))"
proof -
  obtain c w where st: "st = (c, w)" by (cases st)
  obtain ok msg c' w' where r: "run_command env cmd d cr (c, w) = ((ok, msg), c', w')"
    by (metis surj_pair)
  note e = run_command_effect [OF r]
  have "length (failure_labels d (subprocess_run env (length (calls w)) cmd))
          = (if ok then 0 else 1)"
    unfolding e(1) by (cases "subprocess_run env (length (calls w)) cmd") simp_all
  with assms show ?thesis
    unfolding st r by (simp add: bookkeeping_def e(3-6))
qed

lemma metadata_round_bookkeeping:
  assumes "bookkeeping (fst st)"
  shows "bookkeeping (fst (snd (metadata_loop env [(f, d)] ap st)))"
proof -
  obtain c w where st: "st = (c, w)" by (cases st)
  from assms show ?thesis
    unfolding st by (simp add: bookkeeping_def Let_def)
qed

subsection \<open>Counting the checks\<close>

lemma advanced_refl: "advanced st 0 st"
  by (simp add: advanced_def)

lemma advanced_trans:
  "advanced st m st1 \<Longrightarrow> advanced st1 n st2 \<Longrightarrow> advanced st (m + n) st2"
  by (simp add: advanced_def)

lemma advanced_same_calls:
  "calls w0 = calls w \<Longrightarrow> advanced (c, w0) n st' \<Longrightarrow> advanced (c, w) n st'"
  by (simp add: advanced_def)

lemma advanced_same_calls_after:
  "calls w0 = calls w \<Longrightarrow> advanced st n (c, w) \<Longrightarrow> advanced st n (c, w0)"
  by (simp add: advanced_def)

lemma run_command_advanced:
  "advanced st 1 (snd (run_command env cmd d cr st))"
proof -
  obtain c w where st: "st = (c, w)" by (cases st)
  obtain ok msg c' w' where r: "run_command env cmd d cr (c, w) = ((ok, msg), c', w')"
    by (metis surj_pair)
  note e = run_command_effect [OF r]
  have "length (failure_labels d (subprocess_run env (length (calls w)) cmd))
          = (if ok then 0 else 1)"
    unfolding e(1) by (cases "subprocess_run env (length (calls w)) cmd") simp_all
  then show ?thesis
    unfolding st r by (simp add: advanced_def checks_sum_def e(2-6))
qed

lemma metadata_loop_advanced:
  "advanced st (length files) (snd (metadata_loop env files ap st))"
proof (induction files arbitrary: ap st)
  case Nil
  then show ?case by (simp add: advanced_refl)
next
  case (Cons a files)
  obtain filename desc where a: "a = (filename, desc)" by (cases a)
  obtain c w where st: "st = (c, w)" by (cases st)
  have step: "advanced (c, w) (Suc (length files)) (snd (metadata_loop env files ap' (c', w')))"
    if "advanced (c, w) 1 (c', w')" for ap' c' w'
    using advanced_trans [OF that Cons.IH] by simp
  show ?case
    unfolding a st
    by (auto simp: Let_def intro!: step) (simp_all add: advanced_def checks_sum_def)
qed

lemma checks_loop_advanced:
  "advanced st (length checks) (snd (checks_loop env cr checks ap st))"
proof (induction checks arbitrary: ap st)
  case Nil
  then show ?case by (simp add: advanced_refl)
next
  case (Cons a checks)
  obtain cmd desc where a: "a = (cmd, desc)" by (cases a)
  obtain c w where st: "st = (c, w)" by (cases st)
  obtain r st1 where r: "run_command env cmd desc cr (c, print_step desc w) = (r, st1)"
    by (metis surj_pair)
  have "advanced (c, print_step desc w) 1 st1"
    using run_command_advanced [of "(c, print_step desc w)" env cmd desc cr] by (simp add: r)
  then have "advanced (c, w) 1 st1"
    by (simp add: advanced_def)
  from advanced_trans [OF this Cons.IH] show ?case
    unfolding a st by (simp add: r split_beta)
qed

lemma prerequisites_loop_advanced:
  "advanced st (length tools) (snd (prerequisites_loop env tools ag st))"
proof (induction tools arbitrary: ag st)
  case Nil
  then show ?case by (simp add: advanced_refl)
next
  case (Cons a tools)
  obtain cmd desc where a: "a = (cmd, desc)" by (cases a)
  obtain r st1 where r: "run_command env cmd desc True st = (r, st1)"
    by (metis surj_pair)
  have "advanced st 1 st1"
    using run_command_advanced [of st env cmd desc True] by (simp add: r)
  from advanced_trans [OF this Cons.IH] show ?case
    unfolding a by (simp add: r split_beta)
qed

lemma lengths_of_the_lists:
  "length prerequisite_tools = 3" "length core_checks = 5" "length quality_checks = 3"
  "length doc_checks = 2" "length package_checks = 2" "length required_files = 3"
  by (simp_all add: prerequisite_tools_def core_checks_def quality_checks_def doc_checks_def
        package_checks_def required_files_def)

lemma phases_advanced:
  "advanced st 3 (snd (check_prerequisites env st))"
  "advanced st 5 (snd (core_compilation_tests env st))"
  "advanced st 3 (snd (code_quality_checks env st))"
  "advanced st 2 (snd (documentation_checks env st))"
  "advanced st 2 (snd (package_validation env st))"
  "advanced st 3 (snd (metadata_checks env st))"
proof -
  obtain c w where st: "st = (c, w)" by (cases st)
  have h: "calls (print_header t w) = calls w" for t by simp
  note l = lengths_of_the_lists
  show "advanced st 3 (snd (check_prerequisites env st))"
    unfolding st check_prerequisites_def prod.case
    by (rule advanced_same_calls [OF h])
       (rule prerequisites_loop_advanced [of _ prerequisite_tools, unfolded l])
  show "advanced st 5 (snd (core_compilation_tests env st))"
    unfolding st core_compilation_tests_def prod.case
    by (rule advanced_same_calls [OF h])
       (rule checks_loop_advanced [of _ core_checks, unfolded l])
  show "advanced st 3 (snd (code_quality_checks env st))"
    unfolding st code_quality_checks_def prod.case
    by (rule advanced_same_calls [OF h])
       (rule checks_loop_advanced [of _ quality_checks, unfolded l])
  show "advanced st 2 (snd (documentation_checks env st))"
    unfolding st documentation_checks_def prod.case
    by (rule advanced_same_calls [OF h])
       (rule checks_loop_advanced [of _ doc_checks, unfolded l])
  show "advanced st 2 (snd (package_validation env st))"
    unfolding st package_validation_def prod.case
    by (rule advanced_same_calls [OF h])
       (rule checks_loop_advanced [of _ package_checks, unfolded l])
  show "advanced st 3 (snd (metadata_checks env st))"
    unfolding st metadata_checks_def prod.case
    by (rule advanced_same_calls [OF h])
       (rule metadata_loop_advanced [of _ required_files, unfolded l])
qed

lemma state_at_summary_advanced:
  "advanced (CrateChecker_init, w) 18 (state_at_summary env w)"
proof -
  let ?s0 = "(CrateChecker_init, print_banner w)"
  let ?s1 = "snd (check_prerequisites env ?s0)"
  let ?s2 = "snd (core_compilation_tests env ?s1)"
  let ?s3 = "snd (code_quality_checks env ?s2)"
  let ?s4 = "snd (documentation_checks env ?s3)"
  let ?s5 = "snd (package_validation env ?s4)"
  let ?s6 = "snd (metadata_checks env ?s5)"
  have "advanced ?s0 18 ?s6"
    using phases_advanced(1) [of ?s0 env] phases_advanced(2) [of ?s1 env]
      phases_advanced(3) [of ?s2 env] phases_advanced(4) [of ?s3 env]
      phases_advanced(5) [of ?s4 env] phases_advanced(6) [of ?s5 env]
    by (simp add: advanced_def)
  then have "advanced (CrateChecker_init, w) 18 ?s6"
    by (simp add: advanced_def)
  then show ?thesis
    unfolding state_at_summary_def
    by (simp add: advanced_def split_beta)
qed

lemma advanced_from_init:
  "advanced (CrateChecker_init, w) n (c, w') \<Longrightarrow>
   bookkeeping c \<and> total_checks c = int n \<and> checks_sum c = int n
   \<and> length (calls w') = length (calls w) + n"
  by (simp add: advanced_def bookkeeping_def checks_sum_def CrateChecker_init_def)

lemma whole_run_counts:
  assumes "\<not> help_requested argv"
  shows "\<exists>c. fst (snd (main env argv w)) = Some c
           \<and> bookkeeping c
           \<and> total_checks c
               = (if fst (check_prerequisites env (CrateChecker_init, print_banner w))
                  then 18 else 3)
           \<and> checks_sum c = total_checks c
           \<and> int (length (calls (snd (snd (main env argv w)))))
               = int (length (calls w)) + total_checks c"
proof (cases "fst (check_prerequisites env (CrateChecker_init, print_banner w))")
  case True
  obtain c w0 where s: "state_at_summary env w = (c, w0)" by (cases "state_at_summary env w")
  obtain ok c1 w1 where ps: "print_summary (c, w0) = (ok, c1, w1)" by (metis surj_pair)
  note e = print_summary_effect [OF ps]
  have m: "main env argv w = ((if ok then 0 else 1), Some c, w1)"
    by (simp add: main_no_help [OF assms] run_all_checks_completed [OF True] s ps e(1))
  have "advanced (CrateChecker_init, w) 18 (c, w0)"
    using state_at_summary_advanced [of w env] by (simp add: s)
  from advanced_from_init [OF this] show ?thesis
    by (simp add: m True e(2))
next
  case False
  obtain ok0 c0 w0 where cp0:
    "check_prerequisites env (CrateChecker_init, print_banner w) = (ok0, c0, w0)"
    by (metis surj_pair)
  with False have nok: "\<not> ok0" by simp
  have m: "main env argv w =
           (1, Some c0,
            print (NL # Colors_RED @ sym_cross @ '' Prerequisites failed. Cannot continue.''
                    @ Colors_END) w0)"
    using cp0 nok by (simp add: main_no_help [OF assms] run_all_checks_aborted)
  have "advanced (CrateChecker_init, print_banner w) 3 (c0, w0)"
    using phases_advanced(1) [of "(CrateChecker_init, print_banner w)" env] by (simp add: cp0)
  then have "advanced (CrateChecker_init, w) 3 (c0, w0)"
    by (simp add: advanced_def)
  from advanced_from_init [OF this] show ?thesis
    by (simp add: m False)
qed

text \<open>
  Claim C2. A new checker has \<open>total_checks = 0\<close> and nothing recorded. Every check raises
  \<open>total_checks\<close> by exactly one and the number of recorded checks
  (\<open>passed_checks + len(failed_checks) + len(warnings)\<close>) by exactly one: a call of
  \<open>run_command\<close>, however the command ends (the outcome is whatever the environment
  answers), and a round of the metadata loop, whether the file exists or not. Hence each
  loop over a list of \<open>n\<close> entries raises both by \<open>n\<close>; the invariant
  \<open>total_checks = passed_checks + len(failed_checks) + len(warnings)\<close> is kept by every
  check; and the checker a run ends with satisfies it, with both sides equal to the number
  of checks the run made: 18 when the prerequisites pass, 3 when they do not.
\<close>

theorem bookkeeping_after_every_check:
  "bookkeeping CrateChecker_init
   \<and> total_checks CrateChecker_init = 0 \<and> checks_sum CrateChecker_init = 0
   \<and> (let c' = fst (snd (run_command env cmd description critical st)) in
        total_checks c' = total_checks (fst st) + 1 \<and> checks_sum c' = checks_sum (fst st) + 1)
   \<and> (let c' = fst (snd (metadata_loop env [(filename, desc)] all_passed st)) in
        total_checks c' = total_checks (fst st) + 1 \<and> checks_sum c' = checks_sum (fst st) + 1)
   \<and> advanced st (length tools) (snd (prerequisites_loop env tools all_good st))
   \<and> advanced st (length checks) (snd (checks_loop env critical checks all_passed st))
   \<and> advanced st (length files) (snd (metadata_loop env files all_passed st))
   \<and> (bookkeeping (fst st) \<longrightarrow>
        bookkeeping (fst (snd (run_command env cmd description critical st)))
        \<and> bookkeeping (fst (snd (metadata_loop env [(filename, desc)] all_passed st))))
   \<and> (all_recorded st \<longrightarrow>
        all_recorded (snd (run_command env cmd description critical st))
        \<and> all_recorded (snd (metadata_loop env [(filename, desc)] all_passed st)))
   \<and> (\<not> help_requested argv \<longrightarrow>
        (\<exists>c. fst (snd (main env argv w)) = Some c
           \<and> bookkeeping c
           \<and> total_checks c
               = (if fst (check_prerequisites env (CrateChecker_init, print_banner w))
                  then 18 else 3)
           \<and> checks_sum c = total_checks c
           \<and> int (length (calls (snd (snd (main env argv w)))))
               = int (length (calls w)) + total_checks c))"
proof -
  have init: "bookkeeping CrateChecker_init"
    "total_checks CrateChecker_init = 0" "checks_sum CrateChecker_init = 0"
    by (simp_all add: bookkeeping_def checks_sum_def CrateChecker_init_def)
  have one: "total_checks (fst (snd (run_command env cmd description critical st)))
               = total_checks (fst st) + 1"
    "checks_sum (fst (snd (run_command env cmd description critical st)))
               = checks_sum (fst st) + 1"
    using run_command_advanced [of st env cmd description critical]
    by (simp_all add: advanced_def)
  have round: "total_checks (fst (snd (metadata_loop env [(filename, desc)] all_passed st)))
               = total_checks (fst st) + 1"
    "checks_sum (fst (snd (metadata_loop env [(filename, desc)] all_passed st)))
               = checks_sum (fst st) + 1"
    using metadata_loop_advanced [of st "[(filename, desc)]" env all_passed]
    by (simp_all add: advanced_def)
  show ?thesis
    unfolding Let_def
    using init one round
      prerequisites_loop_advanced [of st tools env all_good]
      checks_loop_advanced [of st checks env critical all_passed]
      metadata_loop_advanced [of st files env all_passed]
      run_command_bookkeeping [of st env cmd description critical]
      metadata_round_bookkeeping [of st env filename desc all_passed]
      run_command_all_recorded [of st env cmd description critical]
      metadata_loop_all_recorded [of st env "[(filename, desc)]" all_passed]
      whole_run_counts [of argv env w]
    by blast
qed

theorem bookkeeping_after_every_check_witness:
  "total_checks (fst (snd (run_command env_timeout [''cargo'', ''check'']
                            ''Basic compilation check'' True (CrateChecker_init, world0)))) = 1
   \<and> checks_sum (fst (snd (run_command env_timeout [''cargo'', ''check'']
                            ''Basic compilation check'' True (CrateChecker_init, world0)))) = 1
   \<and> bookkeeping (fst (snd (run_command env_timeout [''cargo'', ''check'']
                            ''Basic compilation check'' True (CrateChecker_init, world0))))
   \<and> all_recorded (snd (run_command env_timeout [''cargo'', ''check'']
                          ''Basic compilation check'' True (CrateChecker_init, world0)))
   \<and> checks_sum (fst (snd (metadata_loop env_only_manifest [(''README.md'', ''README file'')]
                             True (CrateChecker_init, world0)))) = 1
   \<and> (\<exists>c. fst (snd (main env_all_pass [''cratecheck.py''] world0)) = Some c
          \<and> bookkeeping c \<and> total_checks c = 18 \<and> checks_sum c = 18
          \<and> length (calls (snd (snd (main env_all_pass [''cratecheck.py''] world0)))) = 18)"
proof -
  have s: "\<And>n cmd. succeeded (subprocess_run env_all_pass n cmd)"
    by (simp add: env_all_pass_def)
  have pp: "fst (check_prerequisites env_all_pass (CrateChecker_init, print_banner world0))"
    by (rule prerequisites_pass [OF s])
  have h: "\<not> help_requested [''cratecheck.py'']"
    by (simp add: help_requested_def)
  have i: "total_checks CrateChecker_init = 0" "checks_sum CrateChecker_init = 0"
    "bookkeeping CrateChecker_init"
    by (simp_all add: bookkeeping_def checks_sum_def CrateChecker_init_def)
  have c0: "calls world0 = []" by (simp add: world0_def)
  note t1 = bookkeeping_after_every_check [where st = "(CrateChecker_init, world0)"
            and env = env_timeout and cmd = "[''cargo'', ''check'']"
            and description = "''Basic compilation check''" and critical = True
            and filename = "''README.md''" and desc = "''README file''" and all_passed = True
            and tools = "[]" and all_good = True and checks = "[]" and files = "[]"
            and argv = "[''cratecheck.py'']" and w = world0]
  note t2 = bookkeeping_after_every_check [where st = "(CrateChecker_init, world0)"
            and env = env_only_manifest and cmd = "[''cargo'', ''check'']"
            and description = "''Basic compilation check''" and critical = True
            and filename = "''README.md''" and desc = "''README file''" and all_passed = True
            and tools = "[]" and all_good = True and checks = "[]" and files = "[]"
            and argv = "[''cratecheck.py'']" and w = world0]
  note t3 = bookkeeping_after_every_check [where st = "(CrateChecker_init, world0)"
            and env = env_all_pass and cmd = "[''cargo'', ''check'']"
            and description = "''Basic compilation check''" and critical = True
            and filename = "''README.md''" and desc = "''README file''" and all_passed = True
            and tools = "[]" and all_good = True and checks = "[]" and files = "[]"
            and argv = "[''cratecheck.py'']" and w = world0]
  from t1 all_recorded_init have a:
    "total_checks (fst (snd (run_command env_timeout [''cargo'', ''check'']
                            ''Basic compilation check'' True (CrateChecker_init, world0)))) = 1
     \<and> checks_sum (fst (snd (run_command env_timeout [''cargo'', ''check'']
                            ''Basic compilation check'' True (CrateChecker_init, world0)))) = 1
     \<and> bookkeeping (fst (snd (run_command env_timeout [''cargo'', ''check'']
                            ''Basic compilation check'' True (CrateChecker_init, world0))))
     \<and> all_recorded (snd (run_command env_timeout [''cargo'', ''check'']
                          ''Basic compilation check'' True (CrateChecker_init, world0)))"
    by (simp add: Let_def i del: metadata_loop.simps)
  from t2 have b:
    "checks_sum (fst (snd (metadata_loop env_only_manifest [(''README.md'', ''README file'')]
                             True (CrateChecker_init, world0)))) = 1"
    by (simp add: Let_def i del: metadata_loop.simps)
  from t3 h pp obtain c where c:
    "fst (snd (main env_all_pass [''cratecheck.py''] world0)) = Some c"
    "bookkeeping c" "total_checks c = 18" "checks_sum c = total_checks c"
    "int (length (calls (snd (snd (main env_all_pass [''cratecheck.py''] world0)))))
       = int (length (calls world0)) + total_checks c"
    by auto
  from c(3,5) have "length (calls (snd (snd (main env_all_pass [''cratecheck.py''] world0)))) = 18"
    by (simp add: c0)
  with a b c show ?thesis
    by auto
qed

end
